theory Spec2Isabelle
  imports Main "HOL-Library.Word" "HOL-Library.AList" "HOL-Library.Sublist"
begin

section \<open>Python values and exceptions\<close>

text \<open>
  The values that \<open>json.load\<close> produces and that the reporting config holds. A Python
  \<open>dict\<close> keeps its insertion order, so it is an association list: \<open>d[k] = v\<close> is
  \<^const>\<open>AList.update\<close> (an existing key keeps its place, a new one goes last).
  JSON numbers with a fraction or an exponent (Python floats) are outside the model.
\<close>

datatype json =
    JNull
  | JBool bool
  | JInt int
  | JStr string
  | JList "json list"
  | JDict "(string \<times> json) list"

text \<open>The exceptions the modelled code can meet, named as Python names them.\<close>

datatype error =
    ValueError string
  | KeyError string
  | TypeError
  | AttributeError
  | IndexError
  | OSError
  | OverflowError
  | BackendError

section \<open>\<open>hub/util/generate_id.py\<close>\<close>

text \<open>
  Python's \<open>x >> n\<close> on unbounded integers: floor division by \<open>2 ^ n\<close>, and
  \<open>ValueError: negative shift count\<close> when \<open>n < 0\<close>.
\<close>

definition py_rshift :: "int \<Rightarrow> int \<Rightarrow> error + int" where
  "py_rshift x n =
     (if n < 0 then Inl (ValueError ''negative shift count'')
      else Inr (x div 2 ^ nat n))"

text \<open>
  The \<open>dtype\<close> argument is a scalar type of the numeric library, which is not part of
  the repository: it is a parameter, given by its constructor from a Python integer
  (which may raise) and by the \<open>itemsize\<close> of an instance.
\<close>

record 'a dtype =
  construct :: "int \<Rightarrow> error + 'a"
  itemsize :: "'a \<Rightarrow> nat"

text \<open>
  \<open>uuid4().int\<close> is a 128-bit value: the draw is a \<open>128 word\<close> and \<^const>\<open>uint\<close> reads it
  as the Python integer.
\<close>

definition generate_id :: "'a dtype \<Rightarrow> 128 word \<Rightarrow> error + 'a" where
  "generate_id dt r =
     (case construct dt 1 of
        Inl e \<Rightarrow> Inl e
      | Inr one \<Rightarrow>
          (let shift = 128 - 8 * int (itemsize dt one) in
           case py_rshift (uint r) shift of
             Inl e \<Rightarrow> Inl e
           | Inr v \<Rightarrow> construct dt v))"

text \<open>
  An unsigned integer type of \<open>w\<close> bytes: it holds exactly the integers of
  \<open>[0, 2 ^ (8 * w) - 1]\<close> and refuses the others with \<open>OverflowError\<close>.
\<close>

definition np_uint :: "nat \<Rightarrow> int dtype" where
  "np_uint w =
     \<lparr> construct = (\<lambda>v. if 0 \<le> v \<and> v < 2 ^ (8 * w) then Inr v else Inl OverflowError),
       itemsize = (\<lambda>_. w) \<rparr>"

section \<open>The tag list of \<open>hub/util/bugout_reporter.py\<close>\<close>

text \<open>Python's \<open>sub in s\<close> on strings: \<open>sub\<close> occurs in \<open>s\<close> as a contiguous block.\<close>

fun str_contains :: "string \<Rightarrow> string \<Rightarrow> bool" where
  "str_contains sub [] = (sub = [])"
| "str_contains sub (c # cs) = (prefix sub (c # cs) \<or> str_contains sub cs)"

text \<open>
  \<open>find_current_username\<close>: the \<open>for index, tag in enumerate(hub_reporter.tags)\<close> loop,
  with the running index as an argument. The result is the pair the source returns,
  \<open>(None, None)\<close> or \<open>(index, tag)\<close>.
\<close>

fun find_from :: "nat \<Rightarrow> string list \<Rightarrow> nat option \<times> string option" where
  "find_from i [] = (None, None)"
| "find_from i (tag # rest) =
     (if str_contains ''username'' tag then (Some i, Some tag)
      else find_from (Suc i) rest)"

definition find_current_username :: "string list \<Rightarrow> nat option \<times> string option" where
  "find_current_username ts = find_from 0 ts"

section \<open>Operations on loaded values\<close>

text \<open>
  \<open>json.load\<close> may return any JSON value, not only an object, so the operations the
  config code applies are defined on every value, with the exception Python raises.
  \<open>v.get(k)\<close>: only a dict has the method; a missing key reads as \<open>None\<close>.
\<close>

definition py_get :: "json \<Rightarrow> string \<Rightarrow> error + json" where
  "py_get v k =
     (case v of
        JDict d \<Rightarrow> (case map_of d k of None \<Rightarrow> Inr JNull | Some x \<Rightarrow> Inr x)
      | _ \<Rightarrow> Inl AttributeError)"

text \<open>\<open>v[k]\<close> with a string key: \<open>KeyError\<close> on a dict without it, \<open>TypeError\<close> elsewhere.\<close>

definition py_getitem :: "json \<Rightarrow> string \<Rightarrow> error + json" where
  "py_getitem v k =
     (case v of
        JDict d \<Rightarrow> (case map_of d k of None \<Rightarrow> Inl (KeyError k) | Some x \<Rightarrow> Inr x)
      | _ \<Rightarrow> Inl TypeError)"

text \<open>\<open>v[k] = x\<close> with a string key.\<close>

definition py_setitem :: "json \<Rightarrow> string \<Rightarrow> json \<Rightarrow> error + json" where
  "py_setitem v k x =
     (case v of
        JDict d \<Rightarrow> Inr (JDict (AList.update k x d))
      | _ \<Rightarrow> Inl TypeError)"

text \<open>
  Python's \<open>==\<close> on these values: \<open>True == 1\<close> and \<open>False == 0\<close>, lists are compared
  element by element, dicts by their key-value pairs whatever the order.
\<close>

fun py_eq :: "json \<Rightarrow> json \<Rightarrow> bool"
  and py_eq_list :: "json list \<Rightarrow> json list \<Rightarrow> bool"
  and py_eq_items :: "(string \<times> json) list \<Rightarrow> (string \<times> json) list \<Rightarrow> bool" where
  "py_eq JNull JNull = True"
| "py_eq (JBool a) (JBool b) = (a = b)"
| "py_eq (JBool a) (JInt j) = (j = (if a then 1 else 0))"
| "py_eq (JInt i) (JBool b) = (i = (if b then 1 else 0))"
| "py_eq (JInt i) (JInt j) = (i = j)"
| "py_eq (JStr s) (JStr t) = (s = t)"
| "py_eq (JList xs) (JList ys) = py_eq_list xs ys"
| "py_eq (JDict a) (JDict b) = (length a = length b \<and> py_eq_items a b)"
| "py_eq _ _ = False"
| "py_eq_list [] [] = True"
| "py_eq_list (x # xs) (y # ys) = (py_eq x y \<and> py_eq_list xs ys)"
| "py_eq_list _ _ = False"
| "py_eq_items [] b = True"
| "py_eq_items ((k, v) # a) b =
     ((case map_of b k of None \<Rightarrow> False | Some w \<Rightarrow> py_eq v w) \<and> py_eq_items a b)"

text \<open>Sequencing of steps that may raise.\<close>

definition and_then :: "error + 'a \<Rightarrow> ('a \<Rightarrow> error + 'b) \<Rightarrow> error + 'b" where
  "and_then r f = (case r of Inl e \<Rightarrow> Inl e | Inr x \<Rightarrow> f x)"

section \<open>The file at \<open>REPORTING_CONFIG_FILE_PATH\<close>\<close>

text \<open>
  What the code can observe of the file system at the one path it uses. The text of a
  regular file is kept as what \<open>json.load\<close> makes of it: \<open>Garbage\<close> (a
  \<open>JSONDecodeError\<close>, which is a \<open>ValueError\<close>) or the parsed value.
\<close>

datatype content = Garbage | Doc json

datatype node = Missing | Folder | Regular content

record fs =
  config_file :: node
  can_read :: bool
  can_write :: bool
  parent_dir :: bool
  can_mkdir :: bool

definition isfile :: "fs \<Rightarrow> bool" where
  "isfile s = (case config_file s of Regular c \<Rightarrow> True | _ \<Rightarrow> False)"

definition path_exists :: "fs \<Rightarrow> bool" where
  "path_exists s = (config_file s \<noteq> Missing)"

text \<open>\<open>with open(path, "r") as ifp: json.load(ifp)\<close>\<close>

definition json_load :: "fs \<Rightarrow> error + json" where
  "json_load s =
     (case config_file s of
        Missing \<Rightarrow> Inl OSError
      | Folder \<Rightarrow> Inl OSError
      | Regular c \<Rightarrow>
          if \<not> can_read s then Inl OSError
          else (case c of Garbage \<Rightarrow> Inl (ValueError ''JSONDecodeError'') | Doc j \<Rightarrow> Inr j))"

text \<open>\<open>with open(path, "w") as ofp: json.dump(cfg, ofp)\<close>\<close>

definition json_dump :: "json \<Rightarrow> fs \<Rightarrow> error + fs" where
  "json_dump cfg s =
     (if config_file s = Folder \<or> \<not> parent_dir s \<or> \<not> can_write s then Inl OSError
      else Inr (s\<lparr>config_file := Regular (Doc cfg)\<rparr>))"

text \<open>\<open>os.makedirs(path.parent, exist_ok=True)\<close>\<close>

definition os_makedirs :: "fs \<Rightarrow> error + fs" where
  "os_makedirs s =
     (if parent_dir s then Inr s
      else if can_mkdir s then Inr (s\<lparr>parent_dir := True\<rparr>)
      else Inl OSError)"

section \<open>\<open>save_reporting_config\<close>\<close>

text \<open>
  Lines 29 to 42: the starting dict. A failed read or parse is swallowed and leaves
  \<open>{}\<close>; \<open>os.makedirs\<close> is outside any \<open>try\<close>.
\<close>

definition load_existing :: "fs \<Rightarrow> (error + json) \<times> fs" where
  "load_existing s =
     (if isfile s then
        (case json_load s of Inl e \<Rightarrow> (Inr (JDict []), s) | Inr j \<Rightarrow> (Inr j, s))
      else
        (case os_makedirs s of Inl e \<Rightarrow> (Inl e, s) | Inr s' \<Rightarrow> (Inr (JDict []), s')))"

text \<open>
  Lines 44 to 48. \<open>and\<close> is short-circuit: \<open>.get\<close> is called at line 44 only when a
  \<open>client_id\<close> was passed. \<open>uuid\<close> is the string \<open>str(uuid.uuid4())\<close> yields.
\<close>

definition set_client_id :: "string option \<Rightarrow> string \<Rightarrow> json \<Rightarrow> error + json" where
  "set_client_id client_id uuid cfg =
     and_then
       (case client_id of
          None \<Rightarrow> Inr cfg
        | Some c \<Rightarrow>
            and_then (py_get cfg ''client_id'')
              (\<lambda>v. if v = JNull then py_setitem cfg ''client_id'' (JStr c) else Inr cfg))
       (\<lambda>cfg1.
          and_then (py_get cfg1 ''client_id'')
            (\<lambda>v. if v = JNull then py_setitem cfg1 ''client_id'' (JStr uuid) else Inr cfg1))"

text \<open>Lines 50 and 51.\<close>

definition set_username :: "string option \<Rightarrow> json \<Rightarrow> error + json" where
  "set_username username cfg =
     (case username of None \<Rightarrow> Inr cfg | Some u \<Rightarrow> py_setitem cfg ''username'' (JStr u))"

text \<open>Line 53.\<close>

definition set_consent :: "bool \<Rightarrow> json \<Rightarrow> error + json" where
  "set_consent consent cfg = py_setitem cfg ''consent'' (JBool consent)"

text \<open>Lines 55 to 59: a failed write is swallowed.\<close>

definition write_back :: "json \<Rightarrow> fs \<Rightarrow> fs" where
  "write_back cfg s = (case json_dump cfg s of Inl e \<Rightarrow> s | Inr s' \<Rightarrow> s')"

definition save_reporting_config ::
  "bool \<Rightarrow> string option \<Rightarrow> string option \<Rightarrow> string \<Rightarrow> fs \<Rightarrow> (error + json) \<times> fs" where
  "save_reporting_config consent client_id username uuid s =
     (case load_existing s of
        (Inl e, s1) \<Rightarrow> (Inl e, s1)
      | (Inr cfg0, s1) \<Rightarrow>
          (case and_then (and_then (set_client_id client_id uuid cfg0) (set_username username))
                  (set_consent consent) of
             Inl e \<Rightarrow> (Inl e, s1)
           | Inr cfg \<Rightarrow> (Inr cfg, write_back cfg s1)))"

section \<open>\<open>get_reporting_config\<close>\<close>

definition default_config :: "(string \<times> json) list" where
  "default_config = [(''consent'', JBool False)]"

text \<open>
  Lines 79 to 85 under the \<open>except Exception: pass\<close> of line 87: the result is the value
  bound to \<open>reporting_config\<close> when the block ends, or when a statement of it raises.
\<close>

definition derive_machine_id :: "json \<Rightarrow> json" where
  "derive_machine_id cfg =
     (case py_getitem cfg ''client_id'' of
        Inl e \<Rightarrow> cfg
      | Inr cid \<Rightarrow>
     (case py_setitem cfg ''machine_id'' cid of
        Inl e \<Rightarrow> cfg
      | Inr cfg1 \<Rightarrow>
     (case py_get cfg1 ''username'' of
        Inl e \<Rightarrow> cfg1
      | Inr u \<Rightarrow>
          if u = JNull then cfg1
          else
     (case py_getitem cfg1 ''client_id'' of
        Inl e \<Rightarrow> cfg1
      | Inr c \<Rightarrow>
     (case py_getitem cfg1 ''username'' of
        Inl e \<Rightarrow> cfg1
      | Inr u' \<Rightarrow>
          if py_eq c u' then cfg1
          else (case py_setitem cfg1 ''client_id'' u' of Inl e \<Rightarrow> cfg1 | Inr cfg2 \<Rightarrow> cfg2))))))"

text \<open>
  \<open>u1\<close> is the UUID drawn at line 69, \<open>u2\<close> the one \<open>save_reporting_config\<close> would draw.
  Line 70 stores \<open>u1\<close> in the default dict before line 71 rebinds the variable, so that
  dict is what an exception inside \<open>save_reporting_config\<close> leaves behind.
\<close>

definition get_reporting_config :: "string \<Rightarrow> string \<Rightarrow> fs \<Rightarrow> json \<times> fs" where
  "get_reporting_config u1 u2 s =
     (if \<not> path_exists s then
        (case save_reporting_config True (Some u1) None u2 s of
           (Inl e, s1) \<Rightarrow> (JDict (AList.update ''client_id'' (JStr u1) default_config), s1)
         | (Inr cfg, s1) \<Rightarrow> (derive_machine_id cfg, s1))
      else
        (case json_load s of
           Inl e \<Rightarrow> (JDict default_config, s)
         | Inr cfg \<Rightarrow> (derive_machine_id cfg, s)))"

section \<open>The reporter and \<open>feature_report_path\<close>\<close>

text \<open>
  \<open>str(v)\<close>, as an f-string applies it: a string is itself, every other value is its
  \<open>repr\<close>. Python's \<open>repr\<close> is not modelled: it is the parameter \<open>rp\<close>.
\<close>

definition py_str :: "(json \<Rightarrow> string) \<Rightarrow> json \<Rightarrow> string" where
  "py_str rp v = (case v of JStr s \<Rightarrow> s | _ \<Rightarrow> rp v)"

text \<open>
  The state of \<open>hub_reporter\<close> that the module reads and writes: its \<open>client_id\<close>, its
  \<open>tags\<close>, and the calls of \<open>feature_report\<close> the sink has received, in order.
\<close>

record reporter =
  client_id :: json
  tags :: "string list"
  sent :: "(string \<times> (string \<times> json) list) list"

text \<open>
  Lines 103 to 121, run at import on the value \<open>get_reporting_config()\<close> returned.
  \<open>.get\<close> is outside any \<open>try\<close>.
\<close>

definition init_reporter :: "(json \<Rightarrow> string) \<Rightarrow> json \<Rightarrow> error + reporter" where
  "init_reporter rp cfg =
     and_then (py_get cfg ''client_id'') (\<lambda>cid.
     and_then (py_get cfg ''username'') (\<lambda>hub_user.
       let tags1 = (if hub_user \<noteq> JNull then [] @ [''username:'' @ py_str rp hub_user] else [])
       in
     and_then (py_get cfg ''machine_id'') (\<lambda>machine_id.
       let tags2 = (if machine_id \<noteq> JNull then tags1 @ [''machine_id:'' @ py_str rp machine_id]
                    else tags1)
       in Inr \<lparr> client_id = cid, tags = tags2, sent = [] \<rparr>)))"

definition import_module :: "(json \<Rightarrow> string) \<Rightarrow> string \<Rightarrow> string \<Rightarrow> fs \<Rightarrow> (error + reporter) \<times> fs" where
  "import_module rp u1 u2 s =
     (case get_reporting_config u1 u2 s of (cfg, s1) \<Rightarrow> (init_reporter rp cfg, s1))"

text \<open>
  Lines 141 to 147 in two steps, so that a write of the tag list can be told from no
  write: first which write the branches choose, then the write itself.
  \<open>tags[index] = t\<close> raises \<open>TypeError\<close> on the index \<open>None\<close> and \<open>IndexError\<close> out of
  range.
\<close>

datatype tag_write = Untouched | Appended string | Assigned nat string

definition username_tag_write :: "string \<Rightarrow> string list \<Rightarrow> error + tag_write" where
  "username_tag_write username ts =
     (case find_current_username ts of
        (index, None) \<Rightarrow> Inr (Appended (''username:'' @ username))
      | (index, Some current_username) \<Rightarrow>
          if ''username:'' @ username \<noteq> current_username then
            (case index of
               None \<Rightarrow> Inl TypeError
             | Some i \<Rightarrow> Inr (Assigned i (''username:'' @ username)))
          else Inr Untouched)"

definition perform_tag_write :: "tag_write \<Rightarrow> string list \<Rightarrow> error + string list" where
  "perform_tag_write w ts =
     (case w of
        Untouched \<Rightarrow> Inr ts
      | Appended t \<Rightarrow> Inr (ts @ [t])
      | Assigned i t \<Rightarrow> if i < length ts then Inr (ts[i := t]) else Inl IndexError)"

text \<open>\<open>hub_reporter.feature_report(feature_name=..., parameters=...)\<close>: the sink records the call.\<close>

definition feature_report :: "string \<Rightarrow> (string \<times> json) list \<Rightarrow> reporter \<Rightarrow> reporter" where
  "feature_report feature_name parameters rep =
     rep\<lparr>sent := sent rep @ [(feature_name, parameters)]\<rparr>"

text \<open>The \<open>path\<close> argument: a \<open>str\<close>, or any other object, given by what \<open>str(path)\<close> returns.\<close>

datatype path_arg = PathStr string | PathObj string

definition path_text :: "path_arg \<Rightarrow> string" where
  "path_text p = (case p of PathStr s \<Rightarrow> s | PathObj s \<Rightarrow> s)"

text \<open>
  \<open>backend token\<close> stands for \<open>HubBackendClient(token=token).get_user_profile()["name"]\<close>,
  a call to the backend client, which is not part of the repository: the resolved name,
  or the exception it raises. The result holds the exception that reaches the caller (if
  any), the \<open>parameters\<close> dict as the call leaves it, and the reporter.
\<close>

definition feature_report_path ::
  "(string \<Rightarrow> error + string) \<Rightarrow> path_arg \<Rightarrow> string \<Rightarrow> (string \<times> json) list \<Rightarrow> string
     \<Rightarrow> string option \<Rightarrow> reporter \<Rightarrow> (error + unit) \<times> (string \<times> json) list \<times> reporter" where
  "feature_report_path backend path feature_name parameters starts_with token rep =
     (let p = path_text path;
          parameters' = (if prefix starts_with p then AList.update ''Path'' (JStr p) parameters
                         else parameters)
      in case token of
           None \<Rightarrow> (Inr (), parameters', feature_report feature_name parameters' rep)
         | Some t \<Rightarrow>
             (case and_then (backend t) (\<lambda>username.
                     and_then (username_tag_write username (tags rep)) (\<lambda>w.
                       perform_tag_write w (tags rep))) of
                Inl e \<Rightarrow> (Inl e, parameters', rep)
              | Inr ts \<Rightarrow>
                  (Inr (), parameters', feature_report feature_name parameters' (rep\<lparr>tags := ts\<rparr>))))"

text \<open>The invariant of the tag list, and a run of calls from a caller that goes on after an exception.\<close>

definition at_most_one_username :: "string list \<Rightarrow> bool" where
  "at_most_one_username ts = (length (filter (str_contains ''username'') ts) \<le> 1)"

record call =
  call_path :: path_arg
  call_feature :: string
  call_parameters :: "(string \<times> json) list"
  call_prefix :: string
  call_token :: "string option"

definition do_call :: "(string \<Rightarrow> error + string) \<Rightarrow> call \<Rightarrow> reporter \<Rightarrow> reporter" where
  "do_call backend c rep =
     snd (snd (feature_report_path backend (call_path c) (call_feature c) (call_parameters c)
                 (call_prefix c) (call_token c) rep))"

fun run_calls :: "(string \<Rightarrow> error + string) \<Rightarrow> call list \<Rightarrow> reporter \<Rightarrow> reporter" where
  "run_calls backend [] rep = rep"
| "run_calls backend (c # cs) rep = run_calls backend cs (do_call backend c rep)"

section \<open>The spec's \<open>client_id\<close> rule and sample states\<close>

text \<open>
  The \<open>client_id\<close> of a saved config in the spec's words, to compare with the code: the
  stored one when the file has one that is not null; otherwise the provided value if
  given, else the freshly generated UUID.
\<close>

definition spec_client_id :: "(string \<times> json) list \<Rightarrow> string option \<Rightarrow> string \<Rightarrow> json" where
  "spec_client_id d arg uuid =
     (case map_of d ''client_id'' of
        None \<Rightarrow> JStr (case arg of Some a \<Rightarrow> a | None \<Rightarrow> uuid)
      | Some c \<Rightarrow> if c = JNull then JStr (case arg of Some a \<Rightarrow> a | None \<Rightarrow> uuid) else c)"

text \<open>A readable and writable config file that holds the JSON value \<open>j\<close>.\<close>

definition sample_fs :: "json \<Rightarrow> fs" where
  "sample_fs j = \<lparr> config_file = Regular (Doc j), can_read = True, can_write = True,
                   parent_dir = True, can_mkdir = True \<rparr>"

text \<open>A reporter with the tag list \<open>ts\<close> that has sent nothing yet.\<close>

definition sample_reporter :: "string list \<Rightarrow> reporter" where
  "sample_reporter ts = \<lparr> client_id = JStr ''c-1'', tags = ts, sent = [] \<rparr>"

section \<open>Substrings\<close>

lemma str_contains_sublist: "str_contains sub s = sublist sub s"
  by (induction s) (auto simp: sublist_Cons_right)

lemma username_prefix_contains: "str_contains ''username'' (''username:'' @ name)"
  by simp

section \<open>Identifier generation: results\<close>

lemma unat_drop_bit_div:
  fixes r :: "128 word"
  shows "unat (drop_bit n r) = unat r div 2 ^ n"
  by (simp only: unat_drop_bit_eq) (simp only: drop_bit_eq_div)

lemma uint_drop_bit_div:
  fixes r :: "128 word"
  shows "uint (drop_bit n r) = uint r div 2 ^ n"
proof -
  have "uint (drop_bit n r) = int (unat (drop_bit n r))" by simp
  also have "\<dots> = int (unat r div 2 ^ n)" by (simp only: unat_drop_bit_div)
  also have "\<dots> = uint r div 2 ^ n" by (simp add: zdiv_int)
  finally show ?thesis .
qed

lemma top_bits_range:
  fixes r :: "128 word"
  assumes "w \<le> 16"
  shows "uint (drop_bit (128 - 8 * w) r) < 2 ^ (8 * w)"
proof -
  have "unat r < 2 ^ 128" using unsigned_less [of r, where ?'a = nat] by simp
  moreover have "(2::nat) ^ 128 = 2 ^ (8 * w) * 2 ^ (128 - 8 * w)"
    using assms by (simp flip: power_add)
  ultimately have "unat r < 2 ^ (8 * w) * 2 ^ (128 - 8 * w)" by simp
  then have "unat r div 2 ^ (128 - 8 * w) < 2 ^ (8 * w)"
    by (rule less_mult_imp_div_less)
  then have "unat (drop_bit (128 - 8 * w) r) < 2 ^ (8 * w)"
    by (simp only: unat_drop_bit_div)
  then have "int (unat (drop_bit (128 - 8 * w) r)) < int (2 ^ (8 * w))"
    by (simp only: of_nat_less_iff)
  then show ?thesis by simp
qed

text \<open>
  Claim C6. For a byte width \<open>w\<close> of 1, 2, 4, 8 or 16, a type of that \<open>itemsize\<close> that
  holds every integer of \<open>[0, 2 ^ (8 * w) - 1]\<close> unchanged, and every 128-bit draw \<open>r\<close>,
  \<open>generate_id\<close> returns a value: the draw shifted right by \<open>128 - 8 * w\<close>, that is its
  most significant \<open>8 * w\<close> bits, which lies in \<open>[0, 2 ^ (8 * w) - 1]\<close>.
\<close>

theorem generate_id_top_bits:
  fixes dt :: "int dtype" and r :: "128 word"
  assumes "w \<in> {1, 2, 4, 8, 16}"
    and "construct dt 1 = Inr one"
    and "itemsize dt one = w"
    and "\<And>v. 0 \<le> v \<Longrightarrow> v < 2 ^ (8 * w) \<Longrightarrow> construct dt v = Inr v"
  shows "generate_id dt r = Inr (uint (drop_bit (128 - 8 * w) r))
       \<and> uint (drop_bit (128 - 8 * w) r) = uint r div 2 ^ (128 - 8 * w)
       \<and> 0 \<le> uint (drop_bit (128 - 8 * w) r)
       \<and> uint (drop_bit (128 - 8 * w) r) \<le> 2 ^ (8 * w) - 1"
proof -
  let ?top = "uint (drop_bit (128 - 8 * w) r)"
  have w16: "w \<le> 16" using assms(1) by auto
  have sh: "128 - 8 * int w = int (128 - 8 * w)" using w16 by simp
  have eq: "?top = uint r div 2 ^ (128 - 8 * w)"
    by (rule uint_drop_bit_div)
  have lt: "?top < 2 ^ (8 * w)"
    using top_bits_range [OF w16] .
  have ge: "0 \<le> ?top" by simp
  have "py_rshift (uint r) (128 - 8 * int w) = Inr ?top"
    unfolding py_rshift_def by (simp only: sh eq) simp
  then have "generate_id dt r = construct dt ?top"
    unfolding generate_id_def using assms(2,3) by (simp add: Let_def)
  also have "\<dots> = Inr ?top"
    using assms(4) [OF ge lt] .
  finally show ?thesis using eq lt ge by simp
qed

theorem generate_id_top_bits_witness:
  "generate_id (np_uint 4) (0x0123456789ABCDEF0123456789ABCDEF :: 128 word) = Inr 0x01234567"
  using generate_id_top_bits [of 4 "np_uint 4" 1 "0x0123456789ABCDEF0123456789ABCDEF"]
  by (simp add: np_uint_def)

text \<open>
  Claim C3, as the code has it. The code defines no \<open>InvalidWidth\<close> error and checks no
  width. For a type whose \<open>itemsize\<close> exceeds 16 the shift count is negative and Python's
  \<open>>>\<close> raises \<open>ValueError: negative shift count\<close>: \<open>generate_id\<close> raises that error for
  every draw, and constructs no value from a wrapped or mis-shifted draw.
\<close>

theorem generate_id_wide_raises:
  assumes "construct dt 1 = Inr one" and "16 < itemsize dt one"
  shows "generate_id dt r = Inl (ValueError ''negative shift count'')"
  using assms unfolding generate_id_def py_rshift_def by (simp add: Let_def)

theorem generate_id_wide_raises_witness:
  "generate_id (np_uint 32) (0x0123456789ABCDEF0123456789ABCDEF :: 128 word)
     = Inl (ValueError ''negative shift count'')"
  using generate_id_wide_raises [of "np_uint 32" 1 "0x0123456789ABCDEF0123456789ABCDEF"]
  by (simp add: np_uint_def)

text \<open>
  At \<open>itemsize = 17\<close> the shift count is \<open>128 - 136 = -8\<close>; the exception that leaves
  \<open>generate_id\<close> is the \<open>ValueError\<close> of the shift operator, not an \<open>InvalidWidth\<close>.
\<close>

theorem generate_id_invalid_width_counterexample:
  "128 - 8 * int (itemsize (np_uint 17) 1) = - 8
   \<and> py_rshift (uint (1 :: 128 word)) (- 8) = Inl (ValueError ''negative shift count'')
   \<and> generate_id (np_uint 17) (1 :: 128 word) = Inl (ValueError ''negative shift count'')"
  by (simp add: generate_id_def py_rshift_def np_uint_def)

section \<open>The username tag: results\<close>

lemma find_from_none_iff:
  "(find_from i ts = (None, None)) = (\<forall>t\<in>set ts. \<not> str_contains ''username'' t)"
  by (induction ts arbitrary: i) auto

lemma find_from_first:
  assumes "\<exists>t\<in>set ts. str_contains ''username'' t"
  shows "\<exists>k<length ts. find_from i ts = (Some (i + k), Some (ts ! k))
           \<and> str_contains ''username'' (ts ! k)
           \<and> (\<forall>j<k. \<not> str_contains ''username'' (ts ! j))"
  using assms
proof (induction ts arbitrary: i)
  case Nil
  then show ?case by simp
next
  case (Cons tag rest)
  show ?case
  proof (cases "str_contains ''username'' tag")
    case True
    then have "find_from i (tag # rest) = (Some (i + 0), Some ((tag # rest) ! 0))
           \<and> str_contains ''username'' ((tag # rest) ! 0)
           \<and> (\<forall>j<0. \<not> str_contains ''username'' ((tag # rest) ! j))"
      by simp
    then show ?thesis by blast
  next
    case False
    with Cons.prems have "\<exists>t\<in>set rest. str_contains ''username'' t" by simp
    from Cons.IH [OF this, of "Suc i"] obtain k where k: "k < length rest"
      "find_from (Suc i) rest = (Some (Suc i + k), Some (rest ! k))"
      "str_contains ''username'' (rest ! k)"
      "\<forall>j<k. \<not> str_contains ''username'' (rest ! j)"
      by blast
    have "\<forall>j<Suc k. \<not> str_contains ''username'' ((tag # rest) ! j)"
    proof (intro allI impI)
      fix j assume "j < Suc k"
      then show "\<not> str_contains ''username'' ((tag # rest) ! j)"
        using False k(4) by (cases j) auto
    qed
    with k False have "Suc k < length (tag # rest)
       \<and> find_from i (tag # rest) = (Some (i + Suc k), Some ((tag # rest) ! Suc k))
       \<and> str_contains ''username'' ((tag # rest) ! Suc k)
       \<and> (\<forall>j<Suc k. \<not> str_contains ''username'' ((tag # rest) ! j))"
      by simp
    then show ?thesis by blast
  qed
qed

lemma find_from_append_fresh:
  assumes "\<forall>t\<in>set ts. \<not> str_contains ''username'' t"
  shows "find_from i (ts @ [''username:'' @ name])
           = (Some (i + length ts), Some (''username:'' @ name))"
  using assms by (induction ts arbitrary: i) auto

text \<open>
  Claim C8. For every tag list, \<open>find_current_username\<close> returns \<open>(None, None)\<close> if and
  only if no tag contains the substring \<open>username\<close>; otherwise it returns the index and
  the full string of the first tag that contains it. In particular it returns
  \<open>(None, None)\<close> on the empty list, and after one \<open>username:\<close> tag is appended to a list
  without such a tag it returns the index of the appended tag.
\<close>

theorem find_current_username_first:
  "((find_current_username ts = (None, None)) = (\<forall>t\<in>set ts. \<not> sublist ''username'' t))
   \<and> ((\<exists>t\<in>set ts. sublist ''username'' t) \<longrightarrow>
        (\<exists>i<length ts. find_current_username ts = (Some i, Some (ts ! i))
            \<and> sublist ''username'' (ts ! i)
            \<and> (\<forall>j<i. \<not> sublist ''username'' (ts ! j))))
   \<and> find_current_username [] = (None, None)
   \<and> ((\<forall>t\<in>set ts. \<not> sublist ''username'' t) \<longrightarrow>
        find_current_username (ts @ [''username:'' @ name])
          = (Some (length ts), Some (''username:'' @ name)))"
  unfolding find_current_username_def str_contains_sublist [symmetric]
  using find_from_none_iff [of 0 ts] find_from_first [of ts 0]
    find_from_append_fresh [of ts 0 name]
  by simp

theorem find_current_username_first_witness:
  "find_current_username [''machine_id:7f'', ''username:bob'', ''username:eve'']
     = (Some 1, Some ''username:bob'')
   \<and> find_current_username ([''machine_id:7f''] @ [''username:'' @ ''bob''])
     = (Some 1, Some ''username:bob'')
   \<and> find_current_username [''machine_id:7f''] = (None, None)"
  using find_current_username_first [of "[''machine_id:7f'', ''username:bob'', ''username:eve'']" "''x''"]
    find_current_username_first [of "[''machine_id:7f'']" "''bob''"]
  by (simp add: str_contains_sublist [symmetric] find_current_username_def)

lemma find_current_username_cases:
  "find_current_username ts = (None, None) \<and> (\<forall>t\<in>set ts. \<not> str_contains ''username'' t)
   \<or> (\<exists>i<length ts. find_current_username ts = (Some i, Some (ts ! i))
         \<and> str_contains ''username'' (ts ! i))"
proof (cases "\<exists>t\<in>set ts. str_contains ''username'' t")
  case True
  from find_from_first [OF this, of 0] show ?thesis
    unfolding find_current_username_def by auto
next
  case False
  then show ?thesis
    unfolding find_current_username_def using find_from_none_iff [of 0 ts] by simp
qed

lemma username_tag_write_found:
  assumes "find_current_username ts = (Some i, Some cur)"
  shows "username_tag_write name ts
           = Inr (if cur = ''username:'' @ name then Untouched
                  else Assigned i (''username:'' @ name))"
  using assms by (simp add: username_tag_write_def)

text \<open>
  Claim C2, as the code has it. In \<open>feature_report_path\<close> called with an auth token,
  when a username tag already exists, the check compares the full existing tag with
  \<open>"username:"\<close> followed by the resolved name, prefix on both sides. The tag is
  assigned at its index exactly when the two differ; when the resolved name has not
  changed the tag list is left untouched.
\<close>

theorem username_tag_compared_with_prefix:
  assumes "find_current_username (tags rep) = (Some i, Some cur)"
    and "backend t = Inr name"
  shows "username_tag_write name (tags rep)
           = Inr (if cur = ''username:'' @ name then Untouched
                  else Assigned i (''username:'' @ name))
       \<and> (\<exists>ps rep'. feature_report_path backend path f parameters pre (Some t) rep
                      = (Inr (), ps, rep')
            \<and> tags rep' = (if cur = ''username:'' @ name then tags rep
                            else (tags rep)[i := ''username:'' @ name]))"
proof -
  have w: "username_tag_write name (tags rep)
           = Inr (if cur = ''username:'' @ name then Untouched
                  else Assigned i (''username:'' @ name))"
    using assms(1) by (rule username_tag_write_found)
  have "i < length (tags rep)"
    using assms(1) find_current_username_cases [of "tags rep"] by auto
  then show ?thesis
    using w assms(2)
    by (simp add: feature_report_path_def Let_def and_then_def perform_tag_write_def
          feature_report_def)
qed

theorem username_tag_compared_with_prefix_witness:
  "username_tag_write ''carol'' (tags (sample_reporter [''machine_id:7f'', ''username:bob'']))
     = Inr (Assigned 1 ''username:carol'')
   \<and> tags (snd (snd (feature_report_path (\<lambda>t. Inr ''carol'') (PathStr ''hub://x'') ''load'' []
                       ''hub://'' (Some ''tok'') (sample_reporter [''machine_id:7f'', ''username:bob'']))))
     = [''machine_id:7f'', ''username:carol'']"
  using username_tag_compared_with_prefix [of "sample_reporter [''machine_id:7f'', ''username:bob'']"
      1 "''username:bob''" "\<lambda>t. Inr ''carol''" "''tok''" "''carol''" "PathStr ''hub://x''" "''load''"
      "[]" "''hub://''"]
  by (auto simp add: sample_reporter_def find_current_username_def)

text \<open>
  With the tag \<open>username:alice\<close> in the list and the name \<open>alice\<close> resolved again, the
  check finds the two sides equal and the tag is not rewritten, although the bare name
  differs from the full tag.
\<close>

theorem username_tag_rewrite_counterexample:
  "find_current_username [''machine_id:7f'', ''username:alice''] = (Some 1, Some ''username:alice'')
   \<and> username_tag_write ''alice'' [''machine_id:7f'', ''username:alice''] = Inr Untouched
   \<and> ''alice'' \<noteq> ''username:alice''"
  by (simp add: username_tag_write_def find_current_username_def)

section \<open>\<open>feature_report_path\<close>: results\<close>

lemma frp_no_token:
  "feature_report_path backend path f ps pre None rep
     = (Inr (),
        (if prefix pre (path_text path) then AList.update ''Path'' (JStr (path_text path)) ps
         else ps),
        rep\<lparr>sent := sent rep @
          [(f, (if prefix pre (path_text path)
                then AList.update ''Path'' (JStr (path_text path)) ps else ps))]\<rparr>)"
  by (simp add: feature_report_path_def Let_def feature_report_def)

lemma frp_parameters:
  "fst (snd (feature_report_path backend path f ps pre token rep))
     = (if prefix pre (path_text path) then AList.update ''Path'' (JStr (path_text path)) ps
        else ps)"
  by (simp add: feature_report_path_def Let_def split: option.split sum.split)

text \<open>
  Claim C7. When the path starts with the prefix, it is stored as \<open>parameters["Path"]\<close>
  (with or without a token). Without a token the call raises nothing, leaves the tag
  list as it was, and the sink receives the feature name with those parameters. In
  particular, from an empty tag list, the call with path \<open>hub://x\<close>, feature \<open>load\<close>,
  empty parameters and no token sends the parameters \<open>{"Path": "hub://x"}\<close> and the tag
  list stays empty.
\<close>

theorem report_without_token:
  "fst (snd (feature_report_path backend path f ps pre token rep))
     = (if prefix pre (path_text path) then AList.update ''Path'' (JStr (path_text path)) ps else ps)
   \<and> (prefix pre (path_text path) \<longrightarrow>
        map_of (fst (snd (feature_report_path backend path f ps pre token rep))) ''Path''
          = Some (JStr (path_text path)))
   \<and> fst (feature_report_path backend path f ps pre None rep) = Inr ()
   \<and> tags (snd (snd (feature_report_path backend path f ps pre None rep))) = tags rep
   \<and> sent (snd (snd (feature_report_path backend path f ps pre None rep)))
       = sent rep @ [(f, fst (snd (feature_report_path backend path f ps pre None rep)))]
   \<and> (tags rep = [] \<and> sent rep = [] \<longrightarrow>
        feature_report_path backend (PathStr ''hub://x'') ''load'' [] ''hub://'' None rep
          = (Inr (), [(''Path'', JStr ''hub://x'')],
             rep\<lparr>sent := [(''load'', [(''Path'', JStr ''hub://x'')])]\<rparr>)
        \<and> tags (snd (snd (feature_report_path backend (PathStr ''hub://x'') ''load'' []
                              ''hub://'' None rep))) = [])"
  unfolding frp_parameters frp_no_token
  by (simp add: update_conv' path_text_def)

theorem report_without_token_witness:
  "feature_report_path (\<lambda>t. Inl BackendError) (PathStr ''hub://x'') ''load'' [] ''hub://'' None
     \<lparr> client_id = JStr ''c-1'', tags = [], sent = [] \<rparr>
   = (Inr (), [(''Path'', JStr ''hub://x'')],
      \<lparr> client_id = JStr ''c-1'', tags = [], sent = [(''load'', [(''Path'', JStr ''hub://x'')])] \<rparr>)"
  using report_without_token [of "\<lambda>t. Inl BackendError" "PathStr ''hub://x''" "''load''" "[]" "''hub://''"
      None "\<lparr> client_id = JStr ''c-1'', tags = [], sent = [] \<rparr>"]
  by simp

section \<open>The tag list invariant: results\<close>

lemma filter_update_same:
  assumes "i < length ts" and "P (ts ! i)" and "P t"
  shows "length (filter P (ts[i := t])) = length (filter P ts)"
  using assms
proof (induction ts arbitrary: i)
  case Nil
  then show ?case by simp
next
  case (Cons a ts)
  then show ?case by (cases i) auto
qed

lemma tag_write_preserves:
  assumes "at_most_one_username ts"
    and "username_tag_write name ts = Inr w" and "perform_tag_write w ts = Inr ts'"
  shows "at_most_one_username ts'"
proof -
  from find_current_username_cases [of ts] show ?thesis
  proof
    assume none: "find_current_username ts = (None, None)
                  \<and> (\<forall>t\<in>set ts. \<not> str_contains ''username'' t)"
    then have "filter (str_contains ''username'') ts = []" by (simp add: filter_empty_conv)
    moreover have "ts' = ts @ [''username:'' @ name]"
      using none assms(2,3) by (auto simp: username_tag_write_def perform_tag_write_def)
    ultimately show ?thesis by (simp add: at_most_one_username_def)
  next
    assume "\<exists>i<length ts. find_current_username ts = (Some i, Some (ts ! i))
         \<and> str_contains ''username'' (ts ! i)"
    then obtain i where i: "i < length ts" "find_current_username ts = (Some i, Some (ts ! i))"
      "str_contains ''username'' (ts ! i)" by blast
    have "ts' = ts \<or> ts' = ts[i := ''username:'' @ name]"
      using i assms(2,3)
      by (auto simp: username_tag_write_def perform_tag_write_def split: if_splits)
    moreover have "length (filter (str_contains ''username'') (ts[i := ''username:'' @ name]))
        = length (filter (str_contains ''username'') ts)"
      using i(1) i(3) username_prefix_contains by (rule filter_update_same)
    ultimately show ?thesis
      using assms(1) unfolding at_most_one_username_def by presburger
  qed
qed

lemma frp_tags_no_token:
  "tags (snd (snd (feature_report_path backend path f ps pre None rep))) = tags rep"
  by (simp add: feature_report_path_def Let_def feature_report_def)

lemma frp_tags_token:
  "tags (snd (snd (feature_report_path backend path f ps pre (Some t) rep)))
     = (case and_then (backend t) (\<lambda>username.
                     and_then (username_tag_write username (tags rep)) (\<lambda>w.
                       perform_tag_write w (tags rep))) of
          Inl e \<Rightarrow> tags rep | Inr ts \<Rightarrow> ts)"
  by (simp add: feature_report_path_def Let_def feature_report_def split: sum.split)

lemma do_call_preserves:
  assumes "at_most_one_username (tags rep)"
  shows "at_most_one_username (tags (do_call backend c rep))"
proof (cases "call_token c")
  case None
  then show ?thesis using assms
    by (simp add: do_call_def frp_tags_no_token)
next
  case (Some t)
  show ?thesis
  proof (cases "and_then (backend t) (\<lambda>username.
                     and_then (username_tag_write username (tags rep)) (\<lambda>w.
                       perform_tag_write w (tags rep)))")
    case (Inl e)
    then show ?thesis using assms Some
      by (simp add: do_call_def frp_tags_token)
  next
    case (Inr ts')
    then obtain name w where "username_tag_write name (tags rep) = Inr w"
      "perform_tag_write w (tags rep) = Inr ts'"
      by (auto simp: and_then_def split: sum.splits)
    then have "at_most_one_username ts'" using assms tag_write_preserves by blast
    then show ?thesis using Some Inr
      by (simp add: do_call_def frp_tags_token)
  qed
qed

lemma run_calls_preserves:
  "at_most_one_username (tags rep) \<Longrightarrow> at_most_one_username (tags (run_calls backend cs rep))"
  by (induction cs arbitrary: rep) (simp_all add: do_call_preserves)

lemma init_reporter_tags:
  assumes "init_reporter rp cfg = Inr rep0"
    and "py_get cfg ''username'' = Inr hub_user"
    and "py_get cfg ''machine_id'' = Inr machine_id"
  shows "tags rep0 = (if hub_user \<noteq> JNull then [''username:'' @ py_str rp hub_user] else [])
                   @ (if machine_id \<noteq> JNull then [''machine_id:'' @ py_str rp machine_id] else [])"
  using assms
  by (auto simp: init_reporter_def and_then_def Let_def split: sum.splits)

lemma at_most_one_two_tags:
  assumes "\<not> a \<or> \<not> b \<or> \<not> str_contains ''username'' y"
  shows "at_most_one_username ((if a then [x] else []) @ (if b then [y] else []))"
  using assms by (cases a; cases b) (simp_all add: at_most_one_username_def)

text \<open>
  Claim C9, as the code has it. Every \<open>feature_report_path\<close> call keeps "at most one tag
  contains \<open>username\<close>": it appends a username tag only when no tag contains the
  substring and otherwise assigns at the index of the first such tag. Module
  initialization establishes it unless the config has both a username and a
  \<open>machine_id\<close> whose tag text contains \<open>username\<close>; from such a start the invariant
  holds after any run of calls.
\<close>

theorem at_most_one_username_tag:
  assumes "init_reporter rp cfg = Inr rep0"
    and "py_get cfg ''username'' = Inr hub_user"
    and "py_get cfg ''machine_id'' = Inr machine_id"
    and "hub_user = JNull \<or> machine_id = JNull
         \<or> \<not> str_contains ''username'' (''machine_id:'' @ py_str rp machine_id)"
  shows "at_most_one_username (tags rep0)
       \<and> at_most_one_username (tags (do_call backend c rep0))
       \<and> at_most_one_username (tags (run_calls backend cs rep0))"
proof -
  have "at_most_one_username (tags rep0)"
    unfolding init_reporter_tags [OF assms(1,2,3)]
    using assms(4) by (intro at_most_one_two_tags) blast
  then show ?thesis by (simp add: do_call_preserves run_calls_preserves)
qed

theorem at_most_one_username_tag_witness:
  "at_most_one_username
     (tags (run_calls (\<lambda>t. Inr ''carol'')
        [\<lparr> call_path = PathStr ''hub://x'', call_feature = ''load'', call_parameters = [],
            call_prefix = ''hub://'', call_token = Some ''tok'' \<rparr>]
        \<lparr> client_id = JStr ''bob'', tags = [''username:bob'', ''machine_id:c-1''], sent = [] \<rparr>))"
  using at_most_one_username_tag [of "\<lambda>v. []"
      "JDict [(''client_id'', JStr ''bob''), (''username'', JStr ''bob''), (''consent'', JBool True),
              (''machine_id'', JStr ''c-1'')]"
      "\<lparr> client_id = JStr ''bob'', tags = [''username:bob'', ''machine_id:c-1''], sent = [] \<rparr>"
      "JStr ''bob''" "JStr ''c-1''" "\<lambda>t. Inr ''carol''"
      "\<lparr> call_path = PathStr ''hub://x'', call_feature = ''load'', call_parameters = [],
            call_prefix = ''hub://'', call_token = None \<rparr>"
      "[\<lparr> call_path = PathStr ''hub://x'', call_feature = ''load'', call_parameters = [],
            call_prefix = ''hub://'', call_token = Some ''tok'' \<rparr>]"]
  by (simp add: init_reporter_def and_then_def py_get_def py_str_def Let_def)

text \<open>
  A config file whose \<open>client_id\<close> is \<open>my-username\<close> and whose username is \<open>bob\<close>:
  \<open>get_reporting_config\<close> keeps the stored \<open>client_id\<close> as \<open>machine_id\<close>, and the import
  leaves two tags that contain \<open>username\<close>. Both values are strings, so the \<open>repr\<close>
  parameter is never applied.
\<close>

theorem two_username_tags_counterexample:
  "fst (import_module (\<lambda>v. []) ''u1'' ''u2''
          (sample_fs (JDict [(''client_id'', JStr ''my-username''), (''username'', JStr ''bob''),
                             (''consent'', JBool True)])))
     = Inr \<lparr> client_id = JStr ''bob'', tags = [''username:bob'', ''machine_id:my-username''],
              sent = [] \<rparr>
   \<and> \<not> at_most_one_username [''username:bob'', ''machine_id:my-username'']"
  by (simp add: import_module_def get_reporting_config_def path_exists_def json_load_def
        derive_machine_id_def py_getitem_def py_setitem_def py_get_def sample_fs_def
        init_reporter_def and_then_def py_str_def Let_def at_most_one_username_def)

section \<open>The reporting config: results\<close>

lemma set_client_id_dict:
  "\<exists>d1. set_client_id arg uuid (JDict d) = Inr (JDict d1)
        \<and> map_of d1 = (map_of d)(''client_id'' \<mapsto> spec_client_id d arg uuid)"
  unfolding set_client_id_def and_then_def py_get_def py_setitem_def spec_client_id_def
  by (auto simp: update_conv' fun_upd_idem split: option.splits)

lemma save_on_dict:
  assumes "config_file s = Regular (Doc (JDict d))" and "can_read s"
  shows "\<exists>d'. save_reporting_config consent arg username uuid s
            = (Inr (JDict d'), write_back (JDict d') s)
         \<and> map_of d' = (\<lambda>k. if k = ''consent'' then Some (JBool consent)
                          else if k = ''username'' \<and> username \<noteq> None
                            then Some (JStr (the username))
                          else if k = ''client_id'' then Some (spec_client_id d arg uuid)
                          else map_of d k)"
proof -
  have load: "load_existing s = (Inr (JDict d), s)"
    using assms by (simp add: load_existing_def isfile_def json_load_def)
  obtain d1 where d1: "set_client_id arg uuid (JDict d) = Inr (JDict d1)"
    "map_of d1 = (map_of d)(''client_id'' \<mapsto> spec_client_id d arg uuid)"
    using set_client_id_dict by blast
  show ?thesis
    unfolding save_reporting_config_def load
    by (cases username)
       (auto simp: d1 and_then_def set_username_def set_consent_def py_setitem_def update_conv')
qed

lemma write_back_file:
  "config_file (write_back cfg s)
     = (if config_file s = Folder \<or> \<not> parent_dir s \<or> \<not> can_write s then config_file s
        else Regular (Doc cfg))"
  by (simp add: write_back_def json_dump_def)

text \<open>
  Claim C5, as the code has it. For a config file that the read at lines 32 to 34 loads
  (it is readable and parses to an object \<open>d\<close>), \<open>save_reporting_config\<close> with any
  \<open>client_id\<close> argument returns a config \<open>d'\<close> and leaves a file \<open>d''\<close> (the written
  \<open>d'\<close>, or the old file when the write fails) such that a stored non-null \<open>client_id\<close>
  is unchanged in both. The returned \<open>client_id\<close> is the one of the spec's rule: assigned
  only when absent or null, from the provided value if given, else the fresh UUID.
\<close>

theorem save_keeps_client_id:
  assumes "config_file s = Regular (Doc (JDict d))" and "can_read s"
  shows "\<exists>d' s' d''.
           save_reporting_config consent arg username uuid s = (Inr (JDict d'), s')
         \<and> config_file s' = Regular (Doc (JDict d''))
         \<and> (d'' = d' \<or> d'' = d)
         \<and> (parent_dir s \<and> can_write s \<longrightarrow> d'' = d')
         \<and> map_of d' ''client_id'' = Some (spec_client_id d arg uuid)
         \<and> (\<forall>c. map_of d ''client_id'' = Some c \<and> c \<noteq> JNull \<longrightarrow>
                map_of d' ''client_id'' = Some c \<and> map_of d'' ''client_id'' = Some c)"
proof -
  obtain d' where d': "save_reporting_config consent arg username uuid s
            = (Inr (JDict d'), write_back (JDict d') s)"
    "map_of d' = (\<lambda>k. if k = ''consent'' then Some (JBool consent)
                          else if k = ''username'' \<and> username \<noteq> None
                            then Some (JStr (the username))
                          else if k = ''client_id'' then Some (spec_client_id d arg uuid)
                          else map_of d k)"
    using save_on_dict [OF assms] by blast
  have cid: "map_of d' ''client_id'' = Some (spec_client_id d arg uuid)"
    by (simp add: d'(2))
  have keep: "\<And>c. map_of d ''client_id'' = Some c \<Longrightarrow> c \<noteq> JNull
                \<Longrightarrow> spec_client_id d arg uuid = c"
    by (simp add: spec_client_id_def)
  show ?thesis
  proof (cases "parent_dir s \<and> can_write s")
    case True
    then have "config_file (write_back (JDict d') s) = Regular (Doc (JDict d'))"
      using assms(1) by (simp add: write_back_file)
    then show ?thesis using d'(1) cid keep True by auto
  next
    case False
    then have "config_file (write_back (JDict d') s) = Regular (Doc (JDict d))"
      using assms(1) by (auto simp add: write_back_file)
    then show ?thesis using d'(1) cid keep False by auto
  qed
qed

theorem save_keeps_client_id_witness:
  "save_reporting_config False (Some ''other'') None ''fresh''
     (sample_fs (JDict [(''client_id'', JStr ''first''), (''consent'', JBool True)]))
   = (Inr (JDict [(''client_id'', JStr ''first''), (''consent'', JBool False)]),
      sample_fs (JDict [(''client_id'', JStr ''first''), (''consent'', JBool False)]))"
  using save_keeps_client_id [of
      "sample_fs (JDict [(''client_id'', JStr ''first''), (''consent'', JBool True)])"
      "[(''client_id'', JStr ''first''), (''consent'', JBool True)]"
      False "Some ''other''" None "''fresh''"]
  by (simp add: sample_fs_def save_reporting_config_def load_existing_def isfile_def json_load_def
        set_client_id_def set_username_def set_consent_def and_then_def py_get_def py_setitem_def
        write_back_def json_dump_def)

text \<open>
  A file that holds the \<open>client_id\<close> \<open>first\<close> but cannot be read: \<open>open(path, "r")\<close>
  raises, lines 35 and 36 swallow the exception, the config starts from \<open>{}\<close>, and line 45
  assigns the provided \<open>client_id\<close> \<open>other\<close>, which is returned and written over the
  stored one.
\<close>

theorem save_unreadable_file_counterexample:
  "json_load ((sample_fs (JDict [(''client_id'', JStr ''first''), (''consent'', JBool True)]))
               \<lparr>can_read := False\<rparr>) = Inl OSError
   \<and> save_reporting_config False (Some ''other'') None ''fresh''
       ((sample_fs (JDict [(''client_id'', JStr ''first''), (''consent'', JBool True)]))
          \<lparr>can_read := False\<rparr>)
     = (Inr (JDict [(''client_id'', JStr ''other''), (''consent'', JBool False)]),
        (sample_fs (JDict [(''client_id'', JStr ''other''), (''consent'', JBool False)]))
          \<lparr>can_read := False\<rparr>)"
  by (simp add: sample_fs_def save_reporting_config_def load_existing_def isfile_def json_load_def
        set_client_id_def set_username_def set_consent_def and_then_def py_get_def py_setitem_def
        write_back_def json_dump_def)

text \<open>
  Claim C10. For a config file that loads as an object \<open>d\<close>, \<open>save_reporting_config\<close>
  keeps every key other than \<open>client_id\<close>, \<open>username\<close> and \<open>consent\<close> with its value,
  unknown keys included, in the returned config \<open>d'\<close> and in the file it leaves \<open>d''\<close>;
  when the \<open>username\<close> argument is \<open>None\<close> the stored username is unchanged too.
\<close>

theorem save_preserves_other_keys:
  assumes "config_file s = Regular (Doc (JDict d))" and "can_read s"
  shows "\<exists>d' s' d''.
           save_reporting_config consent arg username uuid s = (Inr (JDict d'), s')
         \<and> config_file s' = Regular (Doc (JDict d''))
         \<and> (parent_dir s \<and> can_write s \<longrightarrow> d'' = d')
         \<and> (\<forall>k. k \<notin> {''client_id'', ''username'', ''consent''} \<longrightarrow>
                map_of d' k = map_of d k \<and> map_of d'' k = map_of d k)
         \<and> (username = None \<longrightarrow>
                map_of d' ''username'' = map_of d ''username''
              \<and> map_of d'' ''username'' = map_of d ''username'')"
proof -
  obtain d' where d': "save_reporting_config consent arg username uuid s
            = (Inr (JDict d'), write_back (JDict d') s)"
    "map_of d' = (\<lambda>k. if k = ''consent'' then Some (JBool consent)
                          else if k = ''username'' \<and> username \<noteq> None
                            then Some (JStr (the username))
                          else if k = ''client_id'' then Some (spec_client_id d arg uuid)
                          else map_of d k)"
    using save_on_dict [OF assms] by blast
  have other: "\<And>k. k \<notin> {''client_id'', ''username'', ''consent''} \<Longrightarrow> map_of d' k = map_of d k"
    by (simp add: d'(2))
  have user: "username = None \<Longrightarrow> map_of d' ''username'' = map_of d ''username''"
    by (simp add: d'(2))
  show ?thesis
  proof (cases "parent_dir s \<and> can_write s")
    case True
    then have "config_file (write_back (JDict d') s) = Regular (Doc (JDict d'))"
      using assms(1) by (simp add: write_back_file)
    then show ?thesis using d'(1) other user True by auto
  next
    case False
    then have "config_file (write_back (JDict d') s) = Regular (Doc (JDict d))"
      using assms(1) by (auto simp add: write_back_file)
    then show ?thesis using d'(1) other user False by auto
  qed
qed

theorem save_preserves_other_keys_witness:
  "save_reporting_config True (Some ''other'') None ''fresh''
     (sample_fs (JDict [(''theme'', JStr ''dark''), (''client_id'', JStr ''first''),
                        (''username'', JStr ''bob''), (''consent'', JBool False)]))
   = (Inr (JDict [(''theme'', JStr ''dark''), (''client_id'', JStr ''first''),
                  (''username'', JStr ''bob''), (''consent'', JBool True)]),
      sample_fs (JDict [(''theme'', JStr ''dark''), (''client_id'', JStr ''first''),
                        (''username'', JStr ''bob''), (''consent'', JBool True)]))"
  using save_preserves_other_keys [of
      "sample_fs (JDict [(''theme'', JStr ''dark''), (''client_id'', JStr ''first''),
                         (''username'', JStr ''bob''), (''consent'', JBool False)])"
      "[(''theme'', JStr ''dark''), (''client_id'', JStr ''first''),
        (''username'', JStr ''bob''), (''consent'', JBool False)]"
      True "Some ''other''" None "''fresh''"]
  by (simp add: sample_fs_def save_reporting_config_def load_existing_def isfile_def json_load_def
        set_client_id_def set_username_def set_consent_def and_then_def py_get_def py_setitem_def
        write_back_def json_dump_def)

text \<open>
  Claim C4. For a config file that loads as an object with a \<open>client_id\<close> and with a
  username that is not null and differs from the \<open>client_id\<close> (Python's \<open>!=\<close>),
  \<open>get_reporting_config\<close> returns a config whose \<open>client_id\<close> is that username and whose
  \<open>machine_id\<close> is the \<open>client_id\<close> as stored; the file system is returned as it was.
\<close>

theorem load_substitutes_username:
  assumes "config_file s = Regular (Doc (JDict d))" and "can_read s"
    and "map_of d ''client_id'' = Some cid"
    and "map_of d ''username'' = Some u" and "u \<noteq> JNull"
    and "\<not> py_eq cid u"
  shows "\<exists>d'. get_reporting_config u1 u2 s = (JDict d', s)
         \<and> map_of d' ''client_id'' = Some u
         \<and> map_of d' ''machine_id'' = Some cid
         \<and> d' = AList.update ''client_id'' u (AList.update ''machine_id'' cid d)"
  using assms
  by (simp add: get_reporting_config_def path_exists_def json_load_def derive_machine_id_def
        py_getitem_def py_setitem_def py_get_def update_conv')

theorem load_substitutes_username_witness:
  "get_reporting_config ''u1'' ''u2''
     (sample_fs (JDict [(''client_id'', JStr ''c-1''), (''username'', JStr ''bob''),
                        (''consent'', JBool True)]))
   = (JDict [(''client_id'', JStr ''bob''), (''username'', JStr ''bob''), (''consent'', JBool True),
             (''machine_id'', JStr ''c-1'')],
      sample_fs (JDict [(''client_id'', JStr ''c-1''), (''username'', JStr ''bob''),
                        (''consent'', JBool True)]))"
  using load_substitutes_username [of
      "sample_fs (JDict [(''client_id'', JStr ''c-1''), (''username'', JStr ''bob''),
                         (''consent'', JBool True)])"
      "[(''client_id'', JStr ''c-1''), (''username'', JStr ''bob''), (''consent'', JBool True)]"
      "JStr ''c-1''" "JStr ''bob''" "''u1''" "''u2''"]
  by (simp add: sample_fs_def)

text \<open>
  Where the fail-safe of \<open>get_reporting_config\<close> holds: when the read or the parse fails
  (a corrupt file included) the default \<open>{consent: false}\<close> is returned and nothing is
  raised.
\<close>

lemma load_failure_gives_default:
  assumes "config_file s \<noteq> Missing" and "json_load s = Inl e"
  shows "get_reporting_config u1 u2 s = (JDict [(''consent'', JBool False)], s)"
  using assms by (simp add: get_reporting_config_def path_exists_def default_config_def)

lemma load_corrupt_file_gives_default:
  "config_file s = Regular Garbage \<Longrightarrow>
     get_reporting_config u1 u2 s = (JDict [(''consent'', JBool False)], s)"
  by (simp add: get_reporting_config_def path_exists_def default_config_def json_load_def)

text \<open>
  Claim C1 at a file that holds \<open>{"consent": true}\<close>. The parse succeeds and line 74
  rebinds \<open>reporting_config\<close> to the parsed dict; line 79 then raises \<open>KeyError\<close> for the
  missing \<open>client_id\<close>, the \<open>except\<close> swallows it, and the function returns the parsed
  dict with \<open>consent\<close> true, not the default \<open>{consent: false}\<close>.
\<close>

theorem load_keeps_consent_on_key_error:
  "get_reporting_config ''u1'' ''u2'' (sample_fs (JDict [(''consent'', JBool True)]))
     = (JDict [(''consent'', JBool True)], sample_fs (JDict [(''consent'', JBool True)]))
   \<and> py_getitem (JDict [(''consent'', JBool True)]) ''client_id'' = Inl (KeyError ''client_id'')"
  by (simp add: get_reporting_config_def path_exists_def json_load_def derive_machine_id_def
        py_getitem_def sample_fs_def)

end
